theory Spec2Isabelle
  imports Main "HOL-Library.Multiset"
begin

section \<open>Python values and the rows of \<open>openbook_posts/models.py\<close>\<close>

text \<open>
  Primary keys are the natural numbers a database sequence hands out; a model instance
  that was never saved has the key \<open>None\<close>. Timestamps are clock readings (natural
  numbers). An uploaded file is represented by its name. Python's truth test is written
  out: \<open>None\<close> and the empty string are false, \<open>None\<close> and the number \<open>0\<close> are false,
  a datetime is true whenever it is not \<open>None\<close>.
\<close>

fun truthy_str :: "string option \<Rightarrow> bool" where
  "truthy_str None = False"
| "truthy_str (Some s) = (s \<noteq> [])"

fun truthy_id :: "nat option \<Rightarrow> bool" where
  "truthy_id None = False"
| "truthy_id (Some n) = (n \<noteq> 0)"

datatype error = ValidationError string | IntegrityError | ValueError | ProtectedError

text \<open>The fields of \<open>Post\<close>, \<open>PostImage\<close>, \<open>PostVideo\<close>, \<open>PostComment\<close> and \<open>PostReaction\<close>.
  A foreign key holds the key of the row it points to.\<close>

record post =
  p_id :: "nat option"
  p_text :: "string option"
  p_created :: "nat option"
  p_creator :: nat
  p_public_comments :: bool
  p_public_reactions :: bool

record post_image =
  pi_id :: "nat option"
  pi_post_id :: "nat option"
  pi_image :: "string option"

record post_video =
  pv_id :: "nat option"
  pv_post_id :: "nat option"
  pv_video :: "string option"

record post_comment =
  c_id :: "nat option"
  c_post_id :: "nat option"
  c_created :: "nat option"
  c_commenter :: nat
  c_text :: string

record post_reaction =
  r_id :: "nat option"
  r_post_id :: "nat option"
  r_created :: "nat option"
  r_reactor :: nat
  r_emoji_id :: nat

text \<open>
  The database: one list of rows per table, the last value of each table's key sequence,
  the rows of the many-to-many table between posts and circles as pairs
  \<open>(post key, circle key)\<close>, and the queue of video conversion jobs.
\<close>

record database =
  posts :: "post list"
  post_seq :: nat
  post_images :: "post_image list"
  post_image_seq :: nat
  post_videos :: "post_video list"
  post_video_seq :: nat
  post_circles :: "(nat \<times> nat) list"
  post_comments :: "post_comment list"
  post_comment_seq :: nat
  post_reactions :: "post_reaction list"
  post_reaction_seq :: nat
  queue :: "nat list"

definition empty_db :: database where
  "empty_db = \<lparr>posts = [], post_seq = 0, post_images = [], post_image_seq = 0,
     post_videos = [], post_video_seq = 0, post_circles = [],
     post_comments = [], post_comment_seq = 0,
     post_reactions = [], post_reaction_seq = 0, queue = []\<rparr>"

section \<open>Saving rows\<close>

text \<open>
  \<open>Model.save\<close> of the framework for a \<open>Post\<close>: an instance without a key is inserted
  under the next value of the sequence; an instance with a key replaces the row of that
  key, or is inserted under it when there is no such row. Of the tables' constraints the
  model has those on keys (foreign keys to posts, one-to-one, \<open>unique_together\<close>); the
  length of a text and the presence of a timestamp are not checked.
\<close>

definition post_model_save :: "post \<Rightarrow> database \<Rightarrow> post \<times> database" where
  "post_model_save inst db =
     (case p_id inst of
        None \<Rightarrow>
          (let k = Suc (post_seq db); inst' = inst\<lparr>p_id := Some k\<rparr>
           in (inst', db\<lparr>posts := posts db @ [inst'], post_seq := k\<rparr>))
      | Some k \<Rightarrow>
          (if \<exists>r \<in> set (posts db). p_id r = Some k
           then (inst, db\<lparr>posts := map (\<lambda>r. if p_id r = Some k then inst else r) (posts db)\<rparr>)
           else (inst, db\<lparr>posts := posts db @ [inst]\<rparr>)))"

text \<open>\<open>Post.save\<close>: the timestamp is set when the instance has neither a key nor a
  timestamp; \<open>now\<close> is what \<open>timezone.now()\<close> returns.\<close>

definition Post_save :: "nat \<Rightarrow> post \<Rightarrow> database \<Rightarrow> post \<times> database" where
  "Post_save now inst db =
     post_model_save
       (if \<not> truthy_id (p_id inst) \<and> p_created inst = None
        then inst\<lparr>p_created := Some now\<rparr> else inst) db"

text \<open>\<open>Post.objects.create(creator=creator, created=created)\<close>: build the instance with
  the fields' defaults and save it.\<close>

definition Post_objects_create :: "nat \<Rightarrow> nat \<Rightarrow> nat option \<Rightarrow> database \<Rightarrow> post \<times> database" where
  "Post_objects_create now creator created db =
     Post_save now
       \<lparr>p_id = None, p_text = None, p_created = created, p_creator = creator,
        p_public_comments = True, p_public_reactions = True\<rparr> db"

text \<open>
  \<open>PostImage.objects.create(image=image, post_id=post_id)\<close>. The table refuses a missing
  post key, a key of no post, and a second image of one post (the field is one-to-one).
\<close>

definition PostImage_objects_create ::
  "string option \<Rightarrow> nat option \<Rightarrow> database \<Rightarrow> (error + post_image) \<times> database" where
  "PostImage_objects_create img post_id db =
     (if post_id = None \<or> post_id \<notin> p_id ` set (posts db)
         \<or> (\<exists>i \<in> set (post_images db). pi_post_id i = post_id)
      then (Inl IntegrityError, db)
      else
        (let k = Suc (post_image_seq db);
             inst = \<lparr>pi_id = Some k, pi_post_id = post_id, pi_image = img\<rparr>
         in (Inr inst, db\<lparr>post_images := post_images db @ [inst], post_image_seq := k\<rparr>)))"

text \<open>
  \<open>PostVideo.objects.create(video=video, post_id=post_id)\<close>, with the same checks. The
  receiver \<open>convert_video\<close> of the \<open>post_save\<close> signal then enqueues the conversion of
  the saved row.
\<close>

definition convert_video :: "post_video \<Rightarrow> database \<Rightarrow> database" where
  "convert_video instance db =
     (case pv_id instance of
        None \<Rightarrow> db
      | Some k \<Rightarrow> db\<lparr>queue := queue db @ [k]\<rparr>)"

definition PostVideo_objects_create ::
  "string option \<Rightarrow> nat option \<Rightarrow> database \<Rightarrow> (error + post_video) \<times> database" where
  "PostVideo_objects_create vid post_id db =
     (if post_id = None \<or> post_id \<notin> p_id ` set (posts db)
         \<or> (\<exists>v \<in> set (post_videos db). pv_post_id v = post_id)
      then (Inl IntegrityError, db)
      else
        (let k = Suc (post_video_seq db);
             inst = \<lparr>pv_id = Some k, pv_post_id = post_id, pv_video = vid\<rparr>
         in (Inr inst,
             convert_video inst
               (db\<lparr>post_videos := post_videos db @ [inst], post_video_seq := k\<rparr>))))"

text \<open>
  \<open>post.circles.add(*circles_ids)\<close>: the relation of an unsaved instance cannot be used;
  otherwise the pairs that are not in the table yet are inserted, each once.
\<close>

definition circles_add :: "post \<Rightarrow> nat list \<Rightarrow> database \<Rightarrow> (error + unit) \<times> database" where
  "circles_add inst circles_ids db =
     (case p_id inst of
        None \<Rightarrow> (Inl ValueError, db)
      | Some k \<Rightarrow>
          (Inr (),
           db\<lparr>post_circles := post_circles db @
                filter (\<lambda>pc. pc \<notin> set (post_circles db)) (remdups (map (Pair k) circles_ids))\<rparr>))"

section \<open>\<open>Post.create_post\<close>\<close>

text \<open>
  A statement either raises or goes on with the database it has written. \<open>discard\<close>
  drops the value of a call whose result the caller does not keep, and \<open>then_do\<close> runs
  the rest of a function body after a statement that did not raise.
\<close>

definition discard :: "(error + 'a) \<times> database \<Rightarrow> (error + unit) \<times> database" where
  "discard r = (case r of (Inl e, d) \<Rightarrow> (Inl e, d) | (Inr _, d) \<Rightarrow> (Inr (), d))"

definition then_do ::
  "(error + unit) \<times> database \<Rightarrow> (database \<Rightarrow> (error + 'a) \<times> database)
     \<Rightarrow> (error + 'a) \<times> database" where
  "then_do r k = (case r of (Inl e, d) \<Rightarrow> (Inl e, d) | (Inr _, d) \<Rightarrow> k d)"

text \<open>
  The function returns the post or the error it raised, together with the database it
  leaves behind. \<open>now\<close> and \<open>now'\<close> are the clock readings of its two saves.
\<close>

definition create_post ::
  "nat \<Rightarrow> nat \<Rightarrow> nat \<Rightarrow> nat list \<Rightarrow> string option \<Rightarrow> string option \<Rightarrow> string option \<Rightarrow> nat option
     \<Rightarrow> database \<Rightarrow> (error + post) \<times> database" where
  "create_post now now' creator circles_ids img txt vid created db =
     (if \<not> truthy_str txt \<and> \<not> truthy_str img \<and> \<not> truthy_str vid
      then (Inl (ValidationError ''A post requires text or an image/video.''), db)
      else if truthy_str img \<and> truthy_str vid
      then (Inl (ValidationError ''A post must have an image or a video, not both.''), db)
      else
        (case Post_objects_create now creator created db of (post0, db1) \<Rightarrow>
         (let post1 = (if truthy_str txt then post0\<lparr>p_text := txt\<rparr> else post0) in
          then_do (if truthy_str img
                   then discard (PostImage_objects_create img (p_id post1) db1)
                   else (Inr (), db1)) (\<lambda>db2.
          then_do (if truthy_str vid
                   then discard (PostVideo_objects_create vid (p_id post1) db2)
                   else (Inr (), db2)) (\<lambda>db3.
          then_do (circles_add post1 circles_ids db3) (\<lambda>db4.
          (case Post_save now' post1 db4 of (post2, db5) \<Rightarrow> (Inr post2, db5))))))))"

definition is_validation_error :: "error + 'a \<Rightarrow> bool" where
  "is_validation_error r = (case r of Inl (ValidationError _) \<Rightarrow> True | _ \<Rightarrow> False)"

definition rejected :: "string option \<Rightarrow> string option \<Rightarrow> string option \<Rightarrow> bool" where
  "rejected img txt vid =
     ((\<not> truthy_str txt \<and> \<not> truthy_str img \<and> \<not> truthy_str vid)
      \<or> (truthy_str img \<and> truthy_str vid))"

section \<open>Comments and reactions\<close>

text \<open>
  \<open>Model.save\<close> for a \<open>PostComment\<close>. The table refuses a missing post key and a key of
  no post.
\<close>

definition post_comment_model_save ::
  "post_comment \<Rightarrow> database \<Rightarrow> (error + post_comment) \<times> database" where
  "post_comment_model_save inst db =
     (if c_post_id inst = None \<or> c_post_id inst \<notin> p_id ` set (posts db)
      then (Inl IntegrityError, db)
      else
        (case c_id inst of
           None \<Rightarrow>
             (let k = Suc (post_comment_seq db); inst' = inst\<lparr>c_id := Some k\<rparr>
              in (Inr inst',
                  db\<lparr>post_comments := post_comments db @ [inst'], post_comment_seq := k\<rparr>))
         | Some k \<Rightarrow>
             (if \<exists>r \<in> set (post_comments db). c_id r = Some k
              then (Inr inst,
                    db\<lparr>post_comments :=
                         map (\<lambda>r. if c_id r = Some k then inst else r) (post_comments db)\<rparr>)
              else (Inr inst, db\<lparr>post_comments := post_comments db @ [inst]\<rparr>))))"

definition PostComment_save ::
  "nat \<Rightarrow> post_comment \<Rightarrow> database \<Rightarrow> (error + post_comment) \<times> database" where
  "PostComment_save now inst db =
     post_comment_model_save
       (if \<not> truthy_id (c_id inst) then inst\<lparr>c_created := Some now\<rparr> else inst) db"

definition create_comment ::
  "nat \<Rightarrow> string \<Rightarrow> nat \<Rightarrow> post \<Rightarrow> database \<Rightarrow> (error + post_comment) \<times> database" where
  "create_comment now txt commenter post db =
     PostComment_save now
       \<lparr>c_id = None, c_post_id = p_id post, c_created = None, c_commenter = commenter,
        c_text = txt\<rparr> db"

definition comment ::
  "nat \<Rightarrow> post \<Rightarrow> string \<Rightarrow> nat \<Rightarrow> database \<Rightarrow> (error + post_comment) \<times> database" where
  "comment now self txt commenter db = create_comment now txt commenter self db"

definition remove_comment_with_id :: "post \<Rightarrow> nat \<Rightarrow> database \<Rightarrow> database" where
  "remove_comment_with_id self post_comment_id db =
     db\<lparr>post_comments :=
          filter (\<lambda>c. \<not> (p_id self \<noteq> None \<and> c_post_id c = p_id self
                          \<and> c_id c = Some post_comment_id)) (post_comments db)\<rparr>"

text \<open>
  \<open>Model.save\<close> for a \<open>PostReaction\<close>. In addition to the checks of the post key, the
  table refuses a row whose reactor and post are those of another row
  (\<open>unique_together = ('reactor', 'post',)\<close>).
\<close>

definition same_reactor_and_post :: "post_reaction \<Rightarrow> post_reaction \<Rightarrow> bool" where
  "same_reactor_and_post r r' = (r_reactor r = r_reactor r' \<and> r_post_id r = r_post_id r')"

definition post_reaction_model_save ::
  "post_reaction \<Rightarrow> database \<Rightarrow> (error + post_reaction) \<times> database" where
  "post_reaction_model_save inst db =
     (if r_post_id inst = None \<or> r_post_id inst \<notin> p_id ` set (posts db)
      then (Inl IntegrityError, db)
      else
        (case r_id inst of
           None \<Rightarrow>
             (if \<exists>r \<in> set (post_reactions db). same_reactor_and_post r inst
              then (Inl IntegrityError, db)
              else
                (let k = Suc (post_reaction_seq db); inst' = inst\<lparr>r_id := Some k\<rparr>
                 in (Inr inst',
                     db\<lparr>post_reactions := post_reactions db @ [inst'],
                        post_reaction_seq := k\<rparr>)))
         | Some k \<Rightarrow>
             (if \<exists>r \<in> set (post_reactions db). r_id r \<noteq> Some k \<and> same_reactor_and_post r inst
              then (Inl IntegrityError, db)
              else if \<exists>r \<in> set (post_reactions db). r_id r = Some k
              then (Inr inst,
                    db\<lparr>post_reactions :=
                         map (\<lambda>r. if r_id r = Some k then inst else r) (post_reactions db)\<rparr>)
              else (Inr inst, db\<lparr>post_reactions := post_reactions db @ [inst]\<rparr>))))"

definition PostReaction_save ::
  "nat \<Rightarrow> post_reaction \<Rightarrow> database \<Rightarrow> (error + post_reaction) \<times> database" where
  "PostReaction_save now inst db =
     post_reaction_model_save
       (if \<not> truthy_id (r_id inst) then inst\<lparr>r_created := Some now\<rparr> else inst) db"

definition create_reaction ::
  "nat \<Rightarrow> nat \<Rightarrow> nat \<Rightarrow> post \<Rightarrow> database \<Rightarrow> (error + post_reaction) \<times> database" where
  "create_reaction now reactor emoji_id post db =
     PostReaction_save now
       \<lparr>r_id = None, r_post_id = p_id post, r_created = None, r_reactor = reactor,
        r_emoji_id = emoji_id\<rparr> db"

definition react ::
  "nat \<Rightarrow> post \<Rightarrow> nat \<Rightarrow> nat \<Rightarrow> database \<Rightarrow> (error + post_reaction) \<times> database" where
  "react now self reactor emoji_id db = create_reaction now reactor emoji_id self db"

definition remove_reaction_with_id :: "post \<Rightarrow> nat \<Rightarrow> database \<Rightarrow> database" where
  "remove_reaction_with_id self reaction_id db =
     db\<lparr>post_reactions :=
          filter (\<lambda>r. \<not> (p_id self \<noteq> None \<and> r_post_id r = p_id self
                          \<and> r_id r = Some reaction_id)) (post_reactions db)\<rparr>"

section \<open>Saving one instance again and again\<close>




section \<open>Deleting a post\<close>

text \<open>
  What the framework does with the rows that point to a deleted row, as the foreign key
  declares it: \<open>CASCADE\<close> deletes them, \<open>PROTECT\<close> and \<open>DO_NOTHING\<close> leave them and
  fail when there is one.
\<close>

datatype on_delete = CASCADE | PROTECT | DO_NOTHING

definition PostImage_post_on_delete :: on_delete where
  "PostImage_post_on_delete = CASCADE"

definition PostVideo_post_on_delete :: on_delete where
  "PostVideo_post_on_delete = CASCADE"

definition PostComment_post_on_delete :: on_delete where
  "PostComment_post_on_delete = CASCADE"

definition PostReaction_post_on_delete :: on_delete where
  "PostReaction_post_on_delete = CASCADE"

definition collect :: "on_delete \<Rightarrow> ('r \<Rightarrow> nat option) \<Rightarrow> nat \<Rightarrow> 'r list \<Rightarrow> error + 'r list" where
  "collect policy fk k rows =
     (case policy of
        CASCADE \<Rightarrow> Inr (filter (\<lambda>r. fk r \<noteq> Some k) rows)
      | PROTECT \<Rightarrow> (if \<exists>r \<in> set rows. fk r = Some k then Inl ProtectedError else Inr rows)
      | DO_NOTHING \<Rightarrow> (if \<exists>r \<in> set rows. fk r = Some k then Inl IntegrityError else Inr rows))"

text \<open>
  \<open>post.delete()\<close>: an unsaved instance cannot be deleted. The deletion is one
  transaction: when it fails the database is as before.
\<close>

definition Post_delete :: "post \<Rightarrow> database \<Rightarrow> (error + unit) \<times> database" where
  "Post_delete self db =
     (case p_id self of
        None \<Rightarrow> (Inl ValueError, db)
      | Some k \<Rightarrow>
     (case collect PostImage_post_on_delete pi_post_id k (post_images db) of
        Inl e \<Rightarrow> (Inl e, db)
      | Inr images \<Rightarrow>
     (case collect PostVideo_post_on_delete pv_post_id k (post_videos db) of
        Inl e \<Rightarrow> (Inl e, db)
      | Inr videos \<Rightarrow>
     (case collect PostComment_post_on_delete c_post_id k (post_comments db) of
        Inl e \<Rightarrow> (Inl e, db)
      | Inr comments \<Rightarrow>
     (case collect PostReaction_post_on_delete r_post_id k (post_reactions db) of
        Inl e \<Rightarrow> (Inl e, db)
      | Inr reactions \<Rightarrow>
          (Inr (),
           db\<lparr>posts := filter (\<lambda>p. p_id p \<noteq> Some k) (posts db),
              post_images := images, post_videos := videos,
              post_circles := filter (\<lambda>pc. fst pc \<noteq> k) (post_circles db),
              post_comments := comments, post_reactions := reactions\<rparr>))))))"

section \<open>Queries\<close>

text \<open>\<open>Post.is_public_post\<close>; \<open>world_circle_id\<close> is what \<open>Circle.get_world_circle_id()\<close>
  returns.\<close>

definition is_public_post :: "nat \<Rightarrow> post \<Rightarrow> database \<Rightarrow> bool" where
  "is_public_post world_circle_id self db =
     (length (filter (\<lambda>pc. Some (fst pc) = p_id self \<and> snd pc = world_circle_id)
                (post_circles db)) = 1)"

text \<open>
  \<open>Post.get_emoji_counts_for_post_with_id\<close>. The rows of the \<open>Emoji\<close> table are a
  parameter. The first query joins the emojis with their reactions and keeps each emoji
  once; the loop counts the reactions of each emoji; the sort is Python's stable sort on
  the count, largest first.
\<close>

record emoji =
  e_id :: nat
  e_keyword :: string

record emoji_count =
  ec_emoji :: emoji
  ec_count :: nat

definition emojis_reacted_with :: "nat \<Rightarrow> nat option \<Rightarrow> emoji list \<Rightarrow> database \<Rightarrow> emoji list" where
  "emojis_reacted_with post_id emoji_id emojis db =
     remdups (concat (map (\<lambda>e.
        map (\<lambda>r. e)
          (filter (\<lambda>r. r_emoji_id r = e_id e \<and> r_post_id r = Some post_id
                        \<and> (if truthy_id emoji_id then Some (r_emoji_id r) = emoji_id else True))
             (post_reactions db))) emojis))"

definition emoji_count_of :: "nat \<Rightarrow> nat option \<Rightarrow> database \<Rightarrow> emoji \<Rightarrow> nat" where
  "emoji_count_of post_id reactor_id db e =
     length (filter (\<lambda>r. r_post_id r = Some post_id \<and> r_emoji_id r = e_id e
                          \<and> (if truthy_id reactor_id then Some (r_reactor r) = reactor_id else True))
               (post_reactions db))"

definition get_emoji_counts_for_post_with_id ::
  "nat \<Rightarrow> nat option \<Rightarrow> nat option \<Rightarrow> emoji list \<Rightarrow> database \<Rightarrow> emoji_count list" where
  "get_emoji_counts_for_post_with_id post_id emoji_id reactor_id emojis db =
     sort_key (\<lambda>x. - int (ec_count x))
       (map (\<lambda>e. \<lparr>ec_emoji = e, ec_count = emoji_count_of post_id reactor_id db e\<rparr>)
          (emojis_reacted_with post_id emoji_id emojis db))"

section \<open>The posts endpoint\<close>

text \<open>\<open>user.posts\<close>, the reverse of the foreign key \<open>Post.creator\<close>
  (\<open>related_name='posts'\<close>).\<close>

definition user_posts :: "nat \<Rightarrow> database \<Rightarrow> post list" where
  "user_posts user db = filter (\<lambda>p. p_creator p = user) (posts db)"

text \<open>Modelled from the spec: \<open>circle.posts\<close>, the posts associated with a circle, the
  reverse of \<open>post.circles\<close> (the \<open>Circle\<close> model is not among the sources).\<close>

definition circle_posts :: "nat \<Rightarrow> database \<Rightarrow> post list" where
  "circle_posts circle db =
     filter (\<lambda>p. \<exists>pc \<in> set (post_circles db). Some (fst pc) = p_id p \<and> snd pc = circle)
       (posts db)"

datatype status = HTTP_200_OK | HTTP_201_CREATED | HTTP_400_BAD_REQUEST
  | HTTP_500_INTERNAL_SERVER_ERROR

record create_post_request =
  req_text :: "string option"
  req_image :: "string option"
  req_circle_id :: "nat list"

text \<open>
  Modelled from the spec: the handler of \<open>PUT\<close> on the posts endpoint and
  \<open>User.create_post\<close>, which are not among the sources. The spec says that posting text
  or an image yields 201 and that the post is then in the creator's and in the world
  circle's posts; the endpoint's tests add that a request that names circles puts the
  post into those. The handler calls \<open>Post.create_post\<close> with the requester as creator
  and with the named circles, or with the world circle when none is named; a validation
  error becomes a 4xx response.
\<close>

definition put_posts ::
  "nat \<Rightarrow> nat \<Rightarrow> nat \<Rightarrow> nat \<Rightarrow> create_post_request \<Rightarrow> database
     \<Rightarrow> (status \<times> post option) \<times> database" where
  "put_posts now now' world_circle_id user req db =
     (case create_post now now' user
             (if req_circle_id req = [] then [world_circle_id] else req_circle_id req)
             (req_image req) (req_text req) None None db of
        (Inr post, db') \<Rightarrow> ((HTTP_201_CREATED, Some post), db')
      | (Inl (ValidationError m), db') \<Rightarrow> ((HTTP_400_BAD_REQUEST, None), db')
      | (Inl e, db') \<Rightarrow> ((HTTP_500_INTERNAL_SERVER_ERROR, None), db'))"

text \<open>
  Modelled from the spec: the handler of \<open>GET\<close> on the posts endpoint for a request
  without credentials that names a user, which is not among the sources
  (``unauthenticated users see only public posts''): the posts of that user that
  \<open>Post.is_public_post\<close> accepts.
\<close>

definition get_posts_unauthenticated :: "nat \<Rightarrow> nat \<Rightarrow> database \<Rightarrow> post list" where
  "get_posts_unauthenticated world_circle_id user db =
     filter (\<lambda>p. is_public_post world_circle_id p db) (user_posts user db)"

text \<open>
  Modelled from the spec: the pagination of a feed by the query parameters \<open>max_id\<close> and
  \<open>count\<close>, whose code is not among the sources (``feed pagination respects
  \<open>max_id\<close>/\<open>count\<close>''; the tests expect keys strictly below \<open>max_id\<close>). \<open>feed\<close> is the
  list of posts that the request would return without the two parameters.
\<close>

definition paginate :: "nat option \<Rightarrow> nat option \<Rightarrow> post list \<Rightarrow> post list" where
  "paginate max_id cnt feed =
     (let below = (case max_id of
                     None \<Rightarrow> feed
                   | Some m \<Rightarrow> filter (\<lambda>p. case p_id p of None \<Rightarrow> False | Some k \<Rightarrow> k < m) feed)
      in case cnt of None \<Rightarrow> below | Some n \<Rightarrow> take n below)"

text \<open>
  Modelled from the spec: the filters \<open>circle_id\<close> and \<open>list_id\<close> of an authenticated
  feed request, whose code is not among the sources (``circle/list filters restrict
  visible posts to members of that group''). \<open>connections\<close> holds the pairs of a circle
  and a user connected in it, \<open>follows\<close> the pairs of a list and a user followed in it,
  and \<open>visible\<close> is the list of posts that the requester may see.
\<close>

definition posts_of_circle_members ::
  "(nat \<times> nat) list \<Rightarrow> nat list \<Rightarrow> post list \<Rightarrow> post list" where
  "posts_of_circle_members connections circle_ids visible =
     filter (\<lambda>p. \<exists>c \<in> set circle_ids. (c, p_creator p) \<in> set connections) visible"

definition posts_of_list_members ::
  "(nat \<times> nat) list \<Rightarrow> nat list \<Rightarrow> post list \<Rightarrow> post list" where
  "posts_of_list_members follows list_ids visible =
     filter (\<lambda>p. \<exists>l \<in> set list_ids. (l, p_creator p) \<in> set follows) visible"

section \<open>Reachable databases\<close>

text \<open>The databases that the operations of the models build from the empty one.\<close>

inductive reachable :: "database \<Rightarrow> bool" where
  reach_empty: "reachable empty_db"
| reach_create_post:
    "reachable db \<Longrightarrow>
       reachable (snd (create_post now now' creator circles_ids img txt vid created db))"
| reach_comment:
    "reachable db \<Longrightarrow> reachable (snd (comment now self txt commenter db))"
| reach_remove_comment:
    "reachable db \<Longrightarrow> reachable (remove_comment_with_id self post_comment_id db)"
| reach_create_reaction:
    "reachable db \<Longrightarrow> reachable (snd (create_reaction now reactor emoji_id self db))"
| reach_react:
    "reachable db \<Longrightarrow> reachable (snd (react now self reactor emoji_id db))"
| reach_remove_reaction:
    "reachable db \<Longrightarrow> reachable (remove_reaction_with_id self reaction_id db)"
| reach_delete:
    "reachable db \<Longrightarrow> reachable (snd (Post_delete self db))"

section \<open>Invariants of the database\<close>

text \<open>
  A database is consistent when every post has a key that its sequence has handed out,
  every image, video and circle association belongs to a post of the table, and no
  circle association occurs twice. \<open>content_ok\<close> is the
  invariant of the posts' contents: a text, an image or a video, and never both an image
  and a video. \<open>new_post\<close> and \<open>after_create_post\<close> describe the row and the database
  that a successful \<open>create_post\<close> leaves.
\<close>

definition consistent :: "database \<Rightarrow> bool" where
  "consistent db = ((\<forall>p \<in> set (posts db). \<exists>k. p_id p = Some k \<and> k \<le> post_seq db)
     \<and> (\<forall>i \<in> set (post_images db). pi_post_id i \<in> p_id ` set (posts db))
     \<and> (\<forall>v \<in> set (post_videos db). pv_post_id v \<in> p_id ` set (posts db))
     \<and> (\<forall>pc \<in> set (post_circles db). Some (fst pc) \<in> p_id ` set (posts db))
     \<and> distinct (post_circles db))"

definition post_has_image :: "database \<Rightarrow> post \<Rightarrow> bool" where
  "post_has_image db p = (\<exists>i \<in> set (post_images db). pi_post_id i = p_id p)"

definition post_has_video :: "database \<Rightarrow> post \<Rightarrow> bool" where
  "post_has_video db p = (\<exists>v \<in> set (post_videos db). pv_post_id v = p_id p)"

definition content_ok :: "database \<Rightarrow> bool" where
  "content_ok db = (\<forall>p \<in> set (posts db).
     (truthy_str (p_text p) \<or> post_has_image db p \<or> post_has_video db p)
     \<and> \<not> (post_has_image db p \<and> post_has_video db p))"

definition new_post :: "nat \<Rightarrow> nat \<Rightarrow> string option \<Rightarrow> nat option \<Rightarrow> database \<Rightarrow> post" where
  "new_post now creator txt created db =
     \<lparr>p_id = Some (Suc (post_seq db)),
      p_text = (if truthy_str txt then txt else None),
      p_created = (case created of None \<Rightarrow> Some now | Some t \<Rightarrow> Some t),
      p_creator = creator, p_public_comments = True, p_public_reactions = True\<rparr>"

definition after_create_post ::
  "nat \<Rightarrow> nat \<Rightarrow> nat list \<Rightarrow> string option \<Rightarrow> string option \<Rightarrow> string option \<Rightarrow> nat option
     \<Rightarrow> database \<Rightarrow> database" where
  "after_create_post now creator circles_ids img txt vid created db =
     db\<lparr>posts := posts db @ [new_post now creator txt created db],
        post_seq := Suc (post_seq db),
        post_images :=
          (if truthy_str img
           then post_images db @
                  [\<lparr>pi_id = Some (Suc (post_image_seq db)),
                    pi_post_id = Some (Suc (post_seq db)), pi_image = img\<rparr>]
           else post_images db),
        post_image_seq := (if truthy_str img then Suc (post_image_seq db) else post_image_seq db),
        post_videos :=
          (if truthy_str vid
           then post_videos db @
                  [\<lparr>pv_id = Some (Suc (post_video_seq db)),
                    pv_post_id = Some (Suc (post_seq db)), pv_video = vid\<rparr>]
           else post_videos db),
        post_video_seq := (if truthy_str vid then Suc (post_video_seq db) else post_video_seq db),
        queue := (if truthy_str vid then queue db @ [Suc (post_video_seq db)] else queue db),
        post_circles := post_circles db @
          filter (\<lambda>pc. pc \<notin> set (post_circles db))
            (remdups (map (Pair (Suc (post_seq db))) circles_ids))\<rparr>"

text \<open>The operations on comments and reactions leave the posts and their media alone.\<close>

definition same_posts_and_media :: "database \<Rightarrow> database \<Rightarrow> bool" where
  "same_posts_and_media db db' =
     (posts db' = posts db \<and> post_seq db' = post_seq db
      \<and> post_images db' = post_images db \<and> post_videos db' = post_videos db
      \<and> post_circles db' = post_circles db)"

text \<open>The invariant of the reactions: no two rows with the same reactor and post.\<close>

definition unique_reactions :: "database \<Rightarrow> bool" where
  "unique_reactions db = distinct (map (\<lambda>r. (r_reactor r, r_post_id r)) (post_reactions db))"

section \<open>Example databases\<close>

text \<open>A post of user 7 in circle 1, and the database after user 9 reacted to it.\<close>

definition example_post :: post where
  "example_post = \<lparr>p_id = Some 1, p_text = Some ''hi'', p_created = Some 1, p_creator = 7,
     p_public_comments = True, p_public_reactions = True\<rparr>"

definition example_db1 :: database where
  "example_db1 = snd (create_post 1 2 7 [1] None (Some ''hi'') None None empty_db)"

definition example_db2 :: database where
  "example_db2 = snd (react 3 example_post 9 4 example_db1)"






text \<open>A request without circles, a post of user 7 in circle 5 only, and the database
  that holds it next to the public post.\<close>

definition example_request :: create_post_request where
  "example_request = \<lparr>req_text = Some ''hi'', req_image = None, req_circle_id = []\<rparr>"

definition example_private_post :: post where
  "example_private_post = \<lparr>p_id = Some 2, p_text = Some ''private'', p_created = Some 3,
     p_creator = 7, p_public_comments = True, p_public_reactions = True\<rparr>"

definition example_db3 :: database where
  "example_db3 = snd (create_post 3 4 7 [5] None (Some ''private'') None None example_db1)"

text \<open>Two posts with an image, a video, comments and reactions.\<close>

definition example_full_db :: database where
  "example_full_db = \<lparr>posts = [example_post, example_private_post], post_seq = 2,
     post_images = [\<lparr>pi_id = Some 1, pi_post_id = Some 1, pi_image = Some ''a.jpg''\<rparr>],
     post_image_seq = 1,
     post_videos = [\<lparr>pv_id = Some 1, pv_post_id = Some 2, pv_video = Some ''b.mp4''\<rparr>],
     post_video_seq = 1,
     post_circles = [(1, 1), (2, 5)],
     post_comments =
       [\<lparr>c_id = Some 1, c_post_id = Some 1, c_created = Some 5, c_commenter = 9,
         c_text = ''ok''\<rparr>,
        \<lparr>c_id = Some 2, c_post_id = Some 2, c_created = Some 6, c_commenter = 8,
         c_text = ''no''\<rparr>],
     post_comment_seq = 2,
     post_reactions =
       [\<lparr>r_id = Some 1, r_post_id = Some 1, r_created = Some 7, r_reactor = 9,
         r_emoji_id = 4\<rparr>,
        \<lparr>r_id = Some 2, r_post_id = Some 2, r_created = Some 8, r_reactor = 9,
         r_emoji_id = 6\<rparr>],
     post_reaction_seq = 2, queue = [1]\<rparr>"

text \<open>Two emojis, three reactions to post 1 (one with emoji 4, two with emoji 6) and one
  reaction to post 2.\<close>

definition example_emojis :: "emoji list" where
  "example_emojis = [\<lparr>e_id = 4, e_keyword = ''heart''\<rparr>, \<lparr>e_id = 6, e_keyword = ''smile''\<rparr>]"

definition example_reactions_db :: database where
  "example_reactions_db = empty_db\<lparr>post_reactions :=
     [\<lparr>r_id = Some 1, r_post_id = Some 1, r_created = Some 3, r_reactor = 9, r_emoji_id = 4\<rparr>,
      \<lparr>r_id = Some 2, r_post_id = Some 1, r_created = Some 4, r_reactor = 8, r_emoji_id = 6\<rparr>,
      \<lparr>r_id = Some 3, r_post_id = Some 1, r_created = Some 5, r_reactor = 7, r_emoji_id = 6\<rparr>,
      \<lparr>r_id = Some 4, r_post_id = Some 2, r_created = Some 6, r_reactor = 9, r_emoji_id = 4\<rparr>]\<rparr>"

section \<open>Validation comes before every write\<close>

lemma is_validation_error_simps [simp]:
  "is_validation_error (Inl (ValidationError m))"
  "\<not> is_validation_error (Inl IntegrityError)"
  "\<not> is_validation_error (Inl ValueError)"
  "\<not> is_validation_error (Inl ProtectedError)"
  "\<not> is_validation_error (Inr x)"
  by (simp_all add: is_validation_error_def)

lemma discard_validation [simp]:
  "is_validation_error (fst (discard r)) = is_validation_error (fst r)"
  by (simp add: discard_def is_validation_error_def split: prod.splits sum.splits)

lemma then_do_validation:
  "is_validation_error (fst (then_do r k)) \<longleftrightarrow>
     is_validation_error (fst r) \<or> (\<exists>d. r = (Inr (), d) \<and> is_validation_error (fst (k d)))"
  by (auto simp: then_do_def is_validation_error_def split: prod.splits sum.splits)

lemma PostImage_objects_create_no_validation [simp]:
  "\<not> is_validation_error (fst (PostImage_objects_create img pid db))"
  by (simp add: PostImage_objects_create_def Let_def)

lemma PostVideo_objects_create_no_validation [simp]:
  "\<not> is_validation_error (fst (PostVideo_objects_create vid pid db))"
  by (simp add: PostVideo_objects_create_def Let_def)

lemma circles_add_no_validation [simp]:
  "\<not> is_validation_error (fst (circles_add inst cs db))"
  by (simp add: circles_add_def split: option.splits)

lemma create_post_validation_iff:
  "is_validation_error (fst (create_post now now' creator cs img txt vid created db))
     \<longleftrightarrow> rejected img txt vid"
proof (cases "rejected img txt vid")
  case True
  then show ?thesis
    by (auto simp: create_post_def rejected_def)
next
  case False
  obtain post0 db1 where c: "Post_objects_create now creator created db = (post0, db1)"
    by (cases "Post_objects_create now creator created db")
  have "\<not> is_validation_error (fst (create_post now now' creator cs img txt vid created db))"
    using False unfolding create_post_def rejected_def c Let_def
    by (auto simp: then_do_validation split: prod.splits)
  with False show ?thesis by simp
qed

section \<open>The result of a successful \<open>create_post\<close>\<close>

lemma Post_objects_create_eq:
  "Post_objects_create now creator created db =
     (let p = \<lparr>p_id = Some (Suc (post_seq db)), p_text = None,
               p_created = (case created of None \<Rightarrow> Some now | Some t \<Rightarrow> Some t),
               p_creator = creator, p_public_comments = True, p_public_reactions = True\<rparr>
      in (p, db\<lparr>posts := posts db @ [p], post_seq := Suc (post_seq db)\<rparr>))"
  by (simp add: Post_objects_create_def Post_save_def post_model_save_def Let_def split: option.splits)

lemma fresh_post_id:
  "consistent db \<Longrightarrow> p \<in> set (posts db) \<Longrightarrow> p_id p \<noteq> Some (Suc (post_seq db))"
  by (fastforce simp: consistent_def)

lemma map_replace_absent:
  "(\<And>x. x \<in> set xs \<Longrightarrow> f x \<noteq> k) \<Longrightarrow> map (\<lambda>r. if f r = k then a else r) xs = xs"
  by (induction xs) auto

lemma posts_replace_fresh:
  "consistent db \<Longrightarrow>
     map (\<lambda>r. if p_id r = Some (Suc (post_seq db)) then a else r) (posts db) = posts db"
  by (rule map_replace_absent) (rule fresh_post_id)

lemma fresh_no_image:
  "consistent db \<Longrightarrow> i \<in> set (post_images db) \<Longrightarrow> pi_post_id i \<noteq> Some (Suc (post_seq db))"
  using fresh_post_id by (fastforce simp: consistent_def)

lemma fresh_no_video:
  "consistent db \<Longrightarrow> v \<in> set (post_videos db) \<Longrightarrow> pv_post_id v \<noteq> Some (Suc (post_seq db))"
  using fresh_post_id by (fastforce simp: consistent_def)

lemma create_post_success:
  assumes "consistent db" "\<not> rejected img txt vid"
  shows "create_post now now' creator cs img txt vid created db =
     (Inr (new_post now creator txt created db),
      after_create_post now creator cs img txt vid created db)"
proof -
  consider (t) "\<not> truthy_str img" "\<not> truthy_str vid" "truthy_str txt"
    | (i) "truthy_str img" "\<not> truthy_str vid"
    | (v) "\<not> truthy_str img" "truthy_str vid"
    using assms(2) by (auto simp: rejected_def)
  then show ?thesis
  proof cases
    case t
    with assms(1) show ?thesis
      by (simp add: create_post_def Post_objects_create_eq Let_def then_do_def circles_add_def
          Post_save_def post_model_save_def new_post_def after_create_post_def
          posts_replace_fresh)
  next
    case i
    with assms(1) show ?thesis
      by (cases "truthy_str txt")
         (simp_all add: create_post_def Post_objects_create_eq Let_def then_do_def
          circles_add_def discard_def PostImage_objects_create_def
          Post_save_def post_model_save_def new_post_def after_create_post_def
          posts_replace_fresh fresh_no_image)
  next
    case v
    with assms(1) show ?thesis
      by (cases "truthy_str txt")
         (simp_all add: create_post_def Post_objects_create_eq Let_def then_do_def
          circles_add_def discard_def PostVideo_objects_create_def convert_video_def
          Post_save_def post_model_save_def new_post_def after_create_post_def
          posts_replace_fresh fresh_no_video)
  qed
qed

section \<open>The invariants hold in every reachable database\<close>

lemma same_consistent:
  "same_posts_and_media db db' \<Longrightarrow> consistent db' = consistent db"
  by (simp add: same_posts_and_media_def consistent_def)

lemma same_content_ok:
  "same_posts_and_media db db' \<Longrightarrow> content_ok db' = content_ok db"
  by (simp add: same_posts_and_media_def content_ok_def post_has_image_def post_has_video_def)

lemma create_comment_same:
  "same_posts_and_media db (snd (create_comment now txt commenter post db))"
  by (simp add: same_posts_and_media_def create_comment_def PostComment_save_def
      post_comment_model_save_def Let_def split: option.splits)

lemma remove_comment_same:
  "same_posts_and_media db (remove_comment_with_id self cid db)"
  by (simp add: same_posts_and_media_def remove_comment_with_id_def)

lemma create_reaction_same:
  "same_posts_and_media db (snd (create_reaction now reactor emoji_id post db))"
  by (simp add: same_posts_and_media_def create_reaction_def PostReaction_save_def
      post_reaction_model_save_def Let_def split: option.splits)

lemma remove_reaction_same:
  "same_posts_and_media db (remove_reaction_with_id self rid db)"
  by (simp add: same_posts_and_media_def remove_reaction_with_id_def)

lemma Post_delete_eq:
  "Post_delete self db =
     (case p_id self of
        None \<Rightarrow> (Inl ValueError, db)
      | Some k \<Rightarrow>
          (Inr (),
           db\<lparr>posts := filter (\<lambda>p. p_id p \<noteq> Some k) (posts db),
              post_images := filter (\<lambda>r. pi_post_id r \<noteq> Some k) (post_images db),
              post_videos := filter (\<lambda>r. pv_post_id r \<noteq> Some k) (post_videos db),
              post_circles := filter (\<lambda>pc. fst pc \<noteq> k) (post_circles db),
              post_comments := filter (\<lambda>r. c_post_id r \<noteq> Some k) (post_comments db),
              post_reactions := filter (\<lambda>r. r_post_id r \<noteq> Some k) (post_reactions db)\<rparr>))"
  by (simp add: Post_delete_def collect_def PostImage_post_on_delete_def
      PostVideo_post_on_delete_def PostComment_post_on_delete_def
      PostReaction_post_on_delete_def split: option.splits)

lemma consistent_create_post:
  assumes "consistent db"
  shows "consistent (snd (create_post now now' creator cs img txt vid created db))"
proof (cases "rejected img txt vid")
  case True
  then show ?thesis using assms by (auto simp: create_post_def rejected_def)
next
  case False
  have "consistent (after_create_post now creator cs img txt vid created db)"
  proof -
    let ?k = "Suc (post_seq db)"
    have fresh: "fst pc \<noteq> ?k" if "pc \<in> set (post_circles db)" for pc
      using that assms fresh_post_id [OF assms] by (fastforce simp: consistent_def)
    have d: "distinct (post_circles db @
               filter (\<lambda>pc. pc \<notin> set (post_circles db)) (remdups (map (Pair ?k) cs)))"
      using assms by (auto simp: consistent_def)
    have rows: "(\<forall>p \<in> set (posts db @ [new_post now creator txt created db]).
                   \<exists>k. p_id p = Some k \<and> k \<le> ?k)"
      using assms by (auto simp: consistent_def new_post_def le_Suc_eq)
    have refs: "Some (fst pc) \<in> p_id ` set (posts db @ [new_post now creator txt created db])"
      if "pc \<in> set (post_circles db @
               filter (\<lambda>pc. pc \<notin> set (post_circles db)) (remdups (map (Pair ?k) cs)))" for pc
      using that assms by (auto simp: consistent_def new_post_def)
    show ?thesis
      using assms d rows refs
      by (auto simp: consistent_def after_create_post_def new_post_def)
  qed
  then show ?thesis by (simp add: create_post_success [OF assms False])
qed

lemma consistent_Post_delete:
  assumes "consistent db"
  shows "consistent (snd (Post_delete self db))"
proof (cases "p_id self")
  case None
  then show ?thesis using assms by (simp add: Post_delete_eq)
next
  case (Some k)
  let ?ps = "filter (\<lambda>p. p_id p \<noteq> Some k) (posts db)"
  have keep: "x \<in> p_id ` set ?ps" if "x \<in> p_id ` set (posts db)" "x \<noteq> Some k" for x
    using that by auto
  have 1: "\<forall>p \<in> set ?ps. \<exists>k. p_id p = Some k \<and> k \<le> post_seq db"
    using assms by (simp add: consistent_def)
  have 2: "\<forall>i \<in> set (filter (\<lambda>r. pi_post_id r \<noteq> Some k) (post_images db)).
             pi_post_id i \<in> p_id ` set ?ps"
    using assms keep by (simp add: consistent_def)
  have 3: "\<forall>v \<in> set (filter (\<lambda>r. pv_post_id r \<noteq> Some k) (post_videos db)).
             pv_post_id v \<in> p_id ` set ?ps"
    using assms keep by (simp add: consistent_def)
  have 4: "\<forall>pc \<in> set (filter (\<lambda>pc. fst pc \<noteq> k) (post_circles db)).
             Some (fst pc) \<in> p_id ` set ?ps"
    using assms keep by (simp add: consistent_def)
  have 5: "distinct (filter (\<lambda>pc. fst pc \<noteq> k) (post_circles db))"
    using assms by (simp add: consistent_def)
  show ?thesis
    using 1 2 3 4 5 Some by (simp add: Post_delete_eq consistent_def)
qed

lemma content_ok_create_post:
  assumes "consistent db" "content_ok db"
  shows "content_ok (snd (create_post now now' creator cs img txt vid created db))"
proof (cases "rejected img txt vid")
  case True
  then show ?thesis using assms by (auto simp: create_post_def rejected_def)
next
  case False
  have old: "post_has_image (after_create_post now creator cs img txt vid created db) p
               = post_has_image db p"
       "post_has_video (after_create_post now creator cs img txt vid created db) p
               = post_has_video db p"
    if "p \<in> set (posts db)" for p
    using that fresh_post_id [OF assms(1) that]
    by (auto simp: post_has_image_def post_has_video_def after_create_post_def)
  have new: "post_has_image (after_create_post now creator cs img txt vid created db)
               (new_post now creator txt created db) = truthy_str img"
       "post_has_video (after_create_post now creator cs img txt vid created db)
               (new_post now creator txt created db) = truthy_str vid"
    using fresh_no_image [OF assms(1)] fresh_no_video [OF assms(1)]
    by (auto simp: post_has_image_def post_has_video_def after_create_post_def new_post_def)
  have "content_ok (after_create_post now creator cs img txt vid created db)"
    unfolding content_ok_def
  proof
    fix p assume "p \<in> set (posts (after_create_post now creator cs img txt vid created db))"
    then consider "p \<in> set (posts db)" | "p = new_post now creator txt created db"
      by (auto simp: after_create_post_def)
    then show "(truthy_str (p_text p)
          \<or> post_has_image (after_create_post now creator cs img txt vid created db) p
          \<or> post_has_video (after_create_post now creator cs img txt vid created db) p)
        \<and> \<not> (post_has_image (after_create_post now creator cs img txt vid created db) p
             \<and> post_has_video (after_create_post now creator cs img txt vid created db) p)"
    proof cases
      case 1
      with assms(2) show ?thesis by (simp add: old content_ok_def)
    next
      case 2
      have "truthy_str (p_text (new_post now creator txt created db)) = truthy_str txt"
        by (simp add: new_post_def)
      with 2 False show ?thesis by (auto simp: new rejected_def)
    qed
  qed
  then show ?thesis by (simp add: create_post_success [OF assms(1) False])
qed

lemma content_ok_Post_delete:
  assumes "content_ok db"
  shows "content_ok (snd (Post_delete self db))"
proof (cases "p_id self")
  case None
  then show ?thesis using assms by (simp add: Post_delete_eq)
next
  case (Some k)
  have "post_has_image (snd (Post_delete self db)) p = post_has_image db p"
       "post_has_video (snd (Post_delete self db)) p = post_has_video db p"
    if "p_id p \<noteq> Some k" for p
    using that Some by (auto simp: Post_delete_eq post_has_image_def post_has_video_def)
  then show ?thesis
    using assms Some by (auto simp: content_ok_def Post_delete_eq)
qed

lemma reachable_invariants:
  "reachable db \<Longrightarrow> consistent db \<and> content_ok db"
proof (induction rule: reachable.induct)
  case reach_empty
  show ?case by (simp add: consistent_def content_ok_def empty_db_def)
next
  case (reach_create_post db n n' c cs i t v cr)
  then show ?case by (simp add: consistent_create_post content_ok_create_post)
next
  case (reach_comment db now self t commenter)
  then show ?case
    using create_comment_same [of db now t commenter self]
    by (simp add: comment_def same_consistent same_content_ok)
next
  case (reach_remove_comment db self post_comment_id)
  then show ?case
    using remove_comment_same [of db self post_comment_id]
    by (simp add: same_consistent same_content_ok)
next
  case (reach_create_reaction db now reactor emoji_id self)
  then show ?case
    using create_reaction_same [of db now reactor emoji_id self]
    by (simp add: same_consistent same_content_ok)
next
  case (reach_react db now self reactor emoji_id)
  then show ?case
    using create_reaction_same [of db now reactor emoji_id self]
    by (simp add: react_def same_consistent same_content_ok)
next
  case (reach_remove_reaction db self reaction_id)
  then show ?case
    using remove_reaction_same [of db self reaction_id]
    by (simp add: same_consistent same_content_ok)
next
  case (reach_delete db self)
  then show ?case by (simp add: consistent_Post_delete content_ok_Post_delete)
qed

section \<open>Reactions stay unique\<close>

lemma distinct_map_count:
  "distinct (map f xs) \<Longrightarrow> length (filter (\<lambda>x. f x = y) xs) \<le> 1"
proof (induction xs)
  case Nil
  show ?case by simp
next
  case (Cons x xs)
  show ?case
  proof (cases "f x = y")
    case True
    from Cons.prems have "f x \<notin> f ` set xs" by simp
    with True have "\<forall>z \<in> set xs. f z \<noteq> y" by blast
    then have "filter (\<lambda>x. f x = y) xs = []"
      by (simp add: filter_empty_conv)
    with True show ?thesis by simp
  next
    case False
    with Cons show ?thesis by simp
  qed
qed

lemma create_reaction_refused:
  assumes "r \<in> set (post_reactions db)" "r_reactor r = reactor" "r_post_id r = p_id post"
  shows "create_reaction now reactor emoji_id post db = (Inl IntegrityError, db)"
  using assms
  by (auto simp: create_reaction_def PostReaction_save_def post_reaction_model_save_def
      same_reactor_and_post_def)

lemma unique_create_reaction:
  assumes "unique_reactions db"
  shows "unique_reactions (snd (create_reaction now reactor emoji_id post db))"
  using assms
  by (auto simp: unique_reactions_def create_reaction_def PostReaction_save_def
      post_reaction_model_save_def same_reactor_and_post_def Let_def)

lemma unique_remove_reaction:
  "unique_reactions db \<Longrightarrow> unique_reactions (remove_reaction_with_id self rid db)"
  by (simp add: unique_reactions_def remove_reaction_with_id_def distinct_map_filter)

lemma unique_Post_delete:
  "unique_reactions db \<Longrightarrow> unique_reactions (snd (Post_delete self db))"
  by (simp add: unique_reactions_def Post_delete_eq distinct_map_filter split: option.splits)

lemma create_comment_reactions:
  "post_reactions (snd (create_comment now t commenter post db)) = post_reactions db"
  by (simp add: create_comment_def PostComment_save_def
      post_comment_model_save_def Let_def split: option.splits)

lemma unique_create_post:
  assumes "consistent db" "unique_reactions db"
  shows "unique_reactions (snd (create_post now now' creator cs img t vid created db))"
proof (cases "rejected img t vid")
  case True
  then show ?thesis using assms(2) by (auto simp: create_post_def rejected_def)
next
  case False
  show ?thesis
    using assms(2)
    by (simp add: create_post_success [OF assms(1) False] after_create_post_def
        unique_reactions_def)
qed

lemma reachable_unique_reactions:
  "reachable db \<Longrightarrow> unique_reactions db"
proof (induction rule: reachable.induct)
  case reach_empty
  show ?case by (simp add: unique_reactions_def empty_db_def)
next
  case (reach_create_post db n n' c cs i t v cr)
  then show ?case using reachable_invariants unique_create_post by blast
next
  case (reach_comment db now self t commenter)
  then show ?case
    by (simp add: comment_def unique_reactions_def create_comment_reactions)
next
  case (reach_remove_comment db self post_comment_id)
  then show ?case by (simp add: unique_reactions_def remove_comment_with_id_def)
next
  case (reach_create_reaction db now reactor emoji_id self)
  then show ?case by (simp add: unique_create_reaction)
next
  case (reach_react db now self reactor emoji_id)
  then show ?case by (simp add: react_def unique_create_reaction)
next
  case (reach_remove_reaction db self reaction_id)
  then show ?case by (simp add: unique_remove_reaction)
next
  case (reach_delete db self)
  then show ?case by (simp add: unique_Post_delete)
qed

section \<open>Timestamps\<close>














section \<open>Emoji counts\<close>

lemma sorted_neg_count:
  "sorted (map (\<lambda>x. - int (f x)) xs) \<Longrightarrow> sorted_wrt (\<lambda>a b. b \<le> a) (map f xs)"
  by (induction xs) auto

lemma set_emojis_reacted_with:
  "set (emojis_reacted_with post_id emoji_id emojis db) =
     {e \<in> set emojis. \<exists>r \<in> set (post_reactions db).
        r_post_id r = Some post_id \<and> r_emoji_id r = e_id e
        \<and> (truthy_id emoji_id \<longrightarrow> Some (e_id e) = emoji_id)}"
  by (auto simp: emojis_reacted_with_def)

lemma distinct_emojis_reacted_with:
  "distinct (emojis_reacted_with post_id emoji_id emojis db)"
  by (simp add: emojis_reacted_with_def)

lemma emoji_count_of_eq:
  "emoji_count_of post_id reactor_id db e =
     length (filter (\<lambda>r. r_post_id r = Some post_id \<and> r_emoji_id r = e_id e
                          \<and> (truthy_id reactor_id \<longrightarrow> Some (r_reactor r) = reactor_id))
               (post_reactions db))"
  by (cases "truthy_id reactor_id") (simp_all add: emoji_count_of_def)

lemma map_ec_emoji_sort:
  "mset (map ec_emoji (sort_key k (map (\<lambda>e. \<lparr>ec_emoji = e, ec_count = g e\<rparr>) es))) = mset es"
proof -
  have "mset (map ec_emoji (sort_key k (map (\<lambda>e. \<lparr>ec_emoji = e, ec_count = g e\<rparr>) es)))
          = image_mset ec_emoji (mset (map (\<lambda>e. \<lparr>ec_emoji = e, ec_count = g e\<rparr>) es))"
    by simp
  also have "\<dots> = mset es"
    by (simp add: image_mset.compositionality comp_def)
  finally show ?thesis .
qed

section \<open>Public posts\<close>

lemma fresh_no_circle:
  "consistent db \<Longrightarrow> pc \<in> set (post_circles db) \<Longrightarrow> fst pc \<noteq> Suc (post_seq db)"
  using fresh_post_id by (fastforce simp: consistent_def)

lemma count_distinct_pair:
  "distinct xs \<Longrightarrow>
     (length (filter (\<lambda>pc. Some (fst pc) = Some k \<and> snd pc = w) xs) = 1) = ((k, w) \<in> set xs)"
proof (induction xs)
  case Nil
  show ?case by simp
next
  case (Cons x xs)
  show ?case
  proof (cases "x = (k, w)")
    case True
    with Cons.prems have "(k, w) \<notin> set xs" by simp
    then have "filter (\<lambda>pc. Some (fst pc) = Some k \<and> snd pc = w) xs = []"
      by (auto simp: filter_empty_conv)
    with True show ?thesis by simp
  next
    case False
    then have "\<not> (Some (fst x) = Some k \<and> snd x = w)" by (cases x) auto
    with False Cons show ?thesis by auto
  qed
qed

lemma is_public_post_iff:
  assumes "distinct (post_circles db)"
  shows "is_public_post w p db = (\<exists>k. p_id p = Some k \<and> (k, w) \<in> set (post_circles db))"
proof (cases "p_id p")
  case None
  then show ?thesis by (simp add: is_public_post_def)
next
  case (Some k)
  with count_distinct_pair [OF assms, of k w] show ?thesis
    by (simp add: is_public_post_def)
qed

lemma after_create_post_world:
  assumes "consistent db"
  shows "post_circles (after_create_post now creator [w] img txt vid created db) =
           post_circles db @ [(Suc (post_seq db), w)]"
  using fresh_no_circle [OF assms, of "(Suc (post_seq db), w)"]
  by (auto simp: after_create_post_def)

section \<open>Claims about \<open>create_post\<close>\<close>

text \<open>
  Claim C9. Whenever \<open>Post.create_post\<close> raises a validation error (no content, or both
  an image and a video), the database it leaves is the database it was given: no post,
  image or video row, no circle association and no conversion job was written.
\<close>

theorem validation_error_writes_nothing:
  "is_validation_error (fst (create_post now now' creator circles_ids img txt vid created db))
     \<Longrightarrow> snd (create_post now now' creator circles_ids img txt vid created db) = db"
proof -
  assume "is_validation_error
            (fst (create_post now now' creator circles_ids img txt vid created db))"
  then have "rejected img txt vid"
    by (simp add: create_post_validation_iff)
  then show ?thesis
    by (auto simp: create_post_def rejected_def)
qed

theorem empty_text_rejected_on_empty_db:
  "is_validation_error (fst (create_post 1 2 7 [1] None (Some []) None None empty_db))
   \<and> snd (create_post 1 2 7 [1] None (Some []) None None empty_db) = empty_db"
  using validation_error_writes_nothing [of 1 2 7 "[1]" None "Some []" None None empty_db]
  by (simp add: create_post_def)



section \<open>Claims about reactions\<close>

text \<open>
  Claim C2. In every reachable database each pair of a reactor and a post has at most one
  \<open>PostReaction\<close> row. A second reaction of the same user to the same post is refused
  with an integrity error and writes nothing, and \<open>create_reaction\<close>, \<open>react\<close> and
  \<open>remove_reaction_with_id\<close> keep the rows unique.
\<close>

theorem reaction_unique_per_reactor_and_post:
  assumes "reachable db"
  shows "length (filter (\<lambda>r. (r_reactor r, r_post_id r) = (reactor, post_id))
                   (post_reactions db)) \<le> 1
     \<and> ((\<exists>r \<in> set (post_reactions db). r_reactor r = reactor \<and> r_post_id r = p_id self)
          \<longrightarrow> react now self reactor emoji_id db = (Inl IntegrityError, db))
     \<and> unique_reactions db
     \<and> unique_reactions (snd (create_reaction now reactor emoji_id self db))
     \<and> unique_reactions (snd (react now self reactor emoji_id db))
     \<and> unique_reactions (remove_reaction_with_id self reaction_id db)"
proof -
  have u: "unique_reactions db"
    using assms by (rule reachable_unique_reactions)
  then have "length (filter (\<lambda>r. (r_reactor r, r_post_id r) = (reactor, post_id))
                   (post_reactions db)) \<le> 1"
    unfolding unique_reactions_def by (rule distinct_map_count)
  moreover have "react now self reactor emoji_id db = (Inl IntegrityError, db)"
    if "\<exists>r \<in> set (post_reactions db). r_reactor r = reactor \<and> r_post_id r = p_id self"
    using that create_reaction_refused unfolding react_def by blast
  ultimately show ?thesis
    using u by (simp add: react_def unique_create_reaction unique_remove_reaction)
qed

lemma example_db1_reachable: "reachable example_db1"
  unfolding example_db1_def by (rule reach_create_post) (rule reach_empty)

lemma example_db2_reachable: "reachable example_db2"
  unfolding example_db2_def by (rule reach_react) (rule example_db1_reachable)

lemma example_db2_reactions:
  "post_reactions example_db2 =
     [\<lparr>r_id = Some 1, r_post_id = Some 1, r_created = Some 3, r_reactor = 9, r_emoji_id = 4\<rparr>]"
  by (simp add: example_db2_def example_db1_def example_post_def empty_db_def
      react_def create_reaction_def PostReaction_save_def post_reaction_model_save_def
      create_post_def Post_objects_create_def Post_save_def post_model_save_def
      then_do_def circles_add_def Let_def same_reactor_and_post_def)

theorem second_reaction_refused_on_example:
  "react 5 example_post 9 6 example_db2 = (Inl IntegrityError, example_db2)
   \<and> length (filter (\<lambda>r. (r_reactor r, r_post_id r) = (9, Some 1))
               (post_reactions example_db2)) \<le> 1
   \<and> unique_reactions (snd (react 5 example_post 9 6 example_db2))"
  using reaction_unique_per_reactor_and_post
          [OF example_db2_reachable, of 9 "Some 1" example_post 5 6]
  by (simp add: example_db2_reactions example_post_def)

lemma example_db1_eq:
  "example_db1 = empty_db\<lparr>posts := [example_post], post_seq := 1, post_circles := [(1, 1)]\<rparr>"
  by (simp add: example_db1_def example_post_def empty_db_def
      create_post_def Post_objects_create_def Post_save_def post_model_save_def
      then_do_def circles_add_def Let_def)

lemma example_db2_eq:
  "example_db2 = empty_db\<lparr>posts := [example_post], post_seq := 1, post_circles := [(1, 1)],
     post_reactions :=
       [\<lparr>r_id = Some 1, r_post_id = Some 1, r_created = Some 3, r_reactor = 9,
         r_emoji_id = 4\<rparr>],
     post_reaction_seq := 1\<rparr>"
  by (simp add: example_db2_def example_db1_eq example_post_def empty_db_def
      react_def create_reaction_def PostReaction_save_def post_reaction_model_save_def
      Let_def same_reactor_and_post_def)

section \<open>Claims about timestamps\<close>







section \<open>Claims about deletion\<close>

text \<open>
  Claim C8. Deleting a saved post succeeds and deletes every \<open>PostComment\<close>,
  \<open>PostReaction\<close>, \<open>PostImage\<close> and \<open>PostVideo\<close> row that references it: afterwards no
  comment, reaction, image or video of that post remains, nor the post itself.
\<close>

theorem delete_post_cascades:
  assumes "p_id self = Some k"
  shows "fst (Post_delete self db) = Inr ()
     \<and> (\<forall>c \<in> set (post_comments (snd (Post_delete self db))). c_post_id c \<noteq> Some k)
     \<and> (\<forall>r \<in> set (post_reactions (snd (Post_delete self db))). r_post_id r \<noteq> Some k)
     \<and> (\<forall>i \<in> set (post_images (snd (Post_delete self db))). pi_post_id i \<noteq> Some k)
     \<and> (\<forall>v \<in> set (post_videos (snd (Post_delete self db))). pv_post_id v \<noteq> Some k)
     \<and> (\<forall>p \<in> set (posts (snd (Post_delete self db))). p_id p \<noteq> Some k)
     \<and> set (post_comments (snd (Post_delete self db))) =
           {c \<in> set (post_comments db). c_post_id c \<noteq> Some k}
     \<and> set (post_reactions (snd (Post_delete self db))) =
           {r \<in> set (post_reactions db). r_post_id r \<noteq> Some k}
     \<and> set (post_images (snd (Post_delete self db))) =
           {i \<in> set (post_images db). pi_post_id i \<noteq> Some k}
     \<and> set (post_videos (snd (Post_delete self db))) =
           {v \<in> set (post_videos db). pv_post_id v \<noteq> Some k}"
  using assms by (simp add: Post_delete_eq)

theorem delete_example_post_keeps_other_rows:
  "Post_delete example_post example_full_db =
     (Inr (),
      empty_db\<lparr>posts := [example_private_post], post_seq := 2,
        post_videos := [\<lparr>pv_id = Some 1, pv_post_id = Some 2, pv_video = Some ''b.mp4''\<rparr>],
        post_video_seq := 1, post_image_seq := 1,
        post_circles := [(2, 5)],
        post_comments := [\<lparr>c_id = Some 2, c_post_id = Some 2, c_created = Some 6,
                           c_commenter = 8, c_text = ''no''\<rparr>],
        post_comment_seq := 2,
        post_reactions := [\<lparr>r_id = Some 2, r_post_id = Some 2, r_created = Some 8,
                            r_reactor = 9, r_emoji_id = 6\<rparr>],
        post_reaction_seq := 2, queue := [1]\<rparr>)
   \<and> p_id example_post = Some 1
   \<and> fst (Post_delete example_post example_full_db) = Inr ()"
  using delete_post_cascades [of example_post 1 example_full_db]
  by (simp add: example_post_def example_private_post_def Post_delete_eq
      example_full_db_def empty_db_def)

section \<open>Claims about emoji counts\<close>

text \<open>
  Claim C10. \<open>Post.get_emoji_counts_for_post_with_id\<close> returns one entry per distinct
  emoji that has at least one reaction on the post (only the emoji \<open>emoji_id\<close> when one
  is supplied, that is, when it is not \<open>None\<close> and not 0); the count of each entry is the
  number of \<open>PostReaction\<close> rows of that post and emoji (only those of \<open>reactor_id\<close> when
  one is supplied); and the counts of the returned list never increase.
\<close>

theorem emoji_counts_per_emoji_sorted:
  "set (map ec_emoji (get_emoji_counts_for_post_with_id post_id emoji_id reactor_id emojis db)) =
     {e \<in> set emojis. \<exists>r \<in> set (post_reactions db).
        r_post_id r = Some post_id \<and> r_emoji_id r = e_id e
        \<and> (truthy_id emoji_id \<longrightarrow> Some (e_id e) = emoji_id)}
   \<and> distinct (map ec_emoji
        (get_emoji_counts_for_post_with_id post_id emoji_id reactor_id emojis db))
   \<and> (\<forall>x \<in> set (get_emoji_counts_for_post_with_id post_id emoji_id reactor_id emojis db).
        ec_count x =
          length (filter (\<lambda>r. r_post_id r = Some post_id \<and> r_emoji_id r = e_id (ec_emoji x)
                               \<and> (truthy_id reactor_id \<longrightarrow> Some (r_reactor r) = reactor_id))
                    (post_reactions db)))
   \<and> sorted_wrt (\<lambda>a b. b \<le> a)
        (map ec_count (get_emoji_counts_for_post_with_id post_id emoji_id reactor_id emojis db))"
proof -
  let ?es = "emojis_reacted_with post_id emoji_id emojis db"
  let ?res = "get_emoji_counts_for_post_with_id post_id emoji_id reactor_id emojis db"
  have m: "mset (map ec_emoji ?res) = mset ?es"
    unfolding get_emoji_counts_for_post_with_id_def by (rule map_ec_emoji_sort)
  have 1: "set (map ec_emoji ?res) = set ?es"
    using m by (rule mset_eq_setD)
  have 2: "distinct (map ec_emoji ?res)"
    using mset_eq_imp_distinct_iff [OF m]
      distinct_emojis_reacted_with [of post_id emoji_id emojis db]
    by simp
  have 3: "ec_count x = emoji_count_of post_id reactor_id db (ec_emoji x)"
    if "x \<in> set ?res" for x
    using that by (auto simp: get_emoji_counts_for_post_with_id_def)
  have 4: "sorted_wrt (\<lambda>a b. b \<le> a) (map ec_count ?res)"
    unfolding get_emoji_counts_for_post_with_id_def
    by (rule sorted_neg_count) (rule sorted_sort_key)
  have 5: "set ?es = {e \<in> set emojis. \<exists>r \<in> set (post_reactions db).
        r_post_id r = Some post_id \<and> r_emoji_id r = e_id e
        \<and> (truthy_id emoji_id \<longrightarrow> Some (e_id e) = emoji_id)}"
    by (rule set_emojis_reacted_with)
  have 6: "\<forall>x \<in> set ?res. ec_count x =
          length (filter (\<lambda>r. r_post_id r = Some post_id \<and> r_emoji_id r = e_id (ec_emoji x)
                               \<and> (truthy_id reactor_id \<longrightarrow> Some (r_reactor r) = reactor_id))
                    (post_reactions db))"
  proof
    fix x assume "x \<in> set ?res"
    from 3 [OF this] show "ec_count x =
          length (filter (\<lambda>r. r_post_id r = Some post_id \<and> r_emoji_id r = e_id (ec_emoji x)
                               \<and> (truthy_id reactor_id \<longrightarrow> Some (r_reactor r) = reactor_id))
                    (post_reactions db))"
      by (simp only: emoji_count_of_eq)
  qed
  from 1 5 have 7: "set (map ec_emoji ?res) = {e \<in> set emojis. \<exists>r \<in> set (post_reactions db).
        r_post_id r = Some post_id \<and> r_emoji_id r = e_id e
        \<and> (truthy_id emoji_id \<longrightarrow> Some (e_id e) = emoji_id)}"
    by (rule trans)
  show ?thesis
    by (intro conjI 7 2 6 4)
qed

theorem example_emoji_counts:
  "get_emoji_counts_for_post_with_id 1 (Some 6) (Some 8) example_emojis example_reactions_db =
     [\<lparr>ec_emoji = \<lparr>e_id = 6, e_keyword = ''smile''\<rparr>, ec_count = 1\<rparr>]
   \<and> get_emoji_counts_for_post_with_id 1 None None example_emojis example_reactions_db =
     [\<lparr>ec_emoji = \<lparr>e_id = 6, e_keyword = ''smile''\<rparr>, ec_count = 2\<rparr>,
      \<lparr>ec_emoji = \<lparr>e_id = 4, e_keyword = ''heart''\<rparr>, ec_count = 1\<rparr>]
   \<and> truthy_id (Some 6) \<and> truthy_id (Some 8)
   \<and> sorted_wrt (\<lambda>a b. b \<le> a)
        (map ec_count
           (get_emoji_counts_for_post_with_id 1 (Some 6) (Some 8)
              example_emojis example_reactions_db))"
  using emoji_counts_per_emoji_sorted
          [of 1 "Some 6" "Some 8" example_emojis example_reactions_db]
  by (simp add: get_emoji_counts_for_post_with_id_def emojis_reacted_with_def
      emoji_count_of_def example_emojis_def example_reactions_db_def empty_db_def)

section \<open>Claims about the posts endpoint\<close>

text \<open>
  Claim C3. A request to create a post that names no circle succeeds (201) exactly when
  \<open>create_post\<close> accepts its content, and the created post is afterwards in the
  creator's posts and in the world circle's posts, where \<open>is_public_post\<close> finds it:
  a post created without circles is public.
\<close>

theorem post_without_circles_is_public:
  assumes "reachable db" "req_circle_id req = []"
  shows "(fst (fst (put_posts now now' w user req db)) = HTTP_201_CREATED
            \<longleftrightarrow> \<not> rejected (req_image req) (req_text req) None)
     \<and> (fst (fst (put_posts now now' w user req db)) = HTTP_201_CREATED \<longrightarrow>
          (\<exists>post. snd (fst (put_posts now now' w user req db)) = Some post
             \<and> post \<in> set (user_posts user (snd (put_posts now now' w user req db)))
             \<and> post \<in> set (circle_posts w (snd (put_posts now now' w user req db)))
             \<and> is_public_post w post (snd (put_posts now now' w user req db))))"
proof (cases "rejected (req_image req) (req_text req) None")
  case True
  then show ?thesis
    using assms(2) by (auto simp: put_posts_def create_post_def rejected_def)
next
  case False
  have c: "consistent db" using reachable_invariants [OF assms(1)] by simp
  let ?p = "new_post now user (req_text req) None db"
  let ?db = "after_create_post now user [w] (req_image req) (req_text req) None None db"
  have r: "put_posts now now' w user req db = ((HTTP_201_CREATED, Some ?p), ?db)"
    using assms(2) by (simp add: put_posts_def create_post_success [OF c False])
  have circles: "post_circles ?db = post_circles db @ [(Suc (post_seq db), w)]"
    by (rule after_create_post_world [OF c])
  have posts: "posts ?db = posts db @ [?p]"
    by (simp add: after_create_post_def)
  have 1: "?p \<in> set (user_posts user ?db)"
    by (simp add: user_posts_def posts new_post_def)
  have 2: "?p \<in> set (circle_posts w ?db)"
    by (simp add: circle_posts_def posts circles) (simp add: new_post_def)
  have "consistent ?db"
    using consistent_create_post [OF c, of now now' user "[w]" "req_image req" "req_text req" None None]
    by (simp add: create_post_success [OF c False])
  then have "distinct (post_circles ?db)" by (simp add: consistent_def)
  from is_public_post_iff [OF this, of w ?p]
  have 3: "is_public_post w ?p ?db"
    by (simp add: circles new_post_def)
  show ?thesis using False 1 2 3 by (simp add: r)
qed

lemma example_put_posts:
  "put_posts 1 2 1 7 example_request empty_db = ((HTTP_201_CREATED, Some example_post), example_db1)"
  by (simp add: put_posts_def example_request_def example_db1_def example_post_def empty_db_def
      create_post_def Post_objects_create_def Post_save_def post_model_save_def
      then_do_def circles_add_def Let_def)

theorem example_request_creates_public_post:
  "fst (fst (put_posts 1 2 1 7 example_request empty_db)) = HTTP_201_CREATED
   \<and> example_post \<in> set (user_posts 7 example_db1)
   \<and> example_post \<in> set (circle_posts 1 example_db1)
   \<and> is_public_post 1 example_post example_db1"
  using post_without_circles_is_public [OF reach_empty, of example_request 1 2 1 7]
  unfolding example_put_posts
  by (simp add: example_request_def rejected_def)

text \<open>
  Claim C4. A feed retrieved with the query parameters \<open>max_id\<close> and \<open>count\<close> holds
  only posts with a key strictly below \<open>max_id\<close> and at most \<open>count\<close> of them, namely
  the first \<open>count\<close> of the feed's posts below \<open>max_id\<close>.
\<close>

theorem page_below_max_id_at_most_count:
  "(\<forall>p \<in> set (paginate (Some max_id) (Some cnt) feed). \<exists>k. p_id p = Some k \<and> k < max_id)
   \<and> length (paginate (Some max_id) (Some cnt) feed) \<le> cnt
   \<and> set (paginate (Some max_id) (Some cnt) feed) \<subseteq> set feed
   \<and> length (paginate (Some max_id) (Some cnt) feed) =
       min cnt (length (filter (\<lambda>p. case p_id p of None \<Rightarrow> False | Some k \<Rightarrow> k < max_id) feed))"
proof (intro conjI ballI)
  fix p assume "p \<in> set (paginate (Some max_id) (Some cnt) feed)"
  then have "p \<in> set (filter (\<lambda>p. case p_id p of None \<Rightarrow> False | Some k \<Rightarrow> k < max_id) feed)"
    by (auto simp: paginate_def dest: in_set_takeD)
  then show "\<exists>k. p_id p = Some k \<and> k < max_id"
    by (cases "p_id p") auto
next
  show "length (paginate (Some max_id) (Some cnt) feed) \<le> cnt"
    by (simp add: paginate_def)
next
  show "set (paginate (Some max_id) (Some cnt) feed) \<subseteq> set feed"
    by (auto simp: paginate_def dest: in_set_takeD)
next
  show "length (paginate (Some max_id) (Some cnt) feed) =
       min cnt (length (filter (\<lambda>p. case p_id p of None \<Rightarrow> False | Some k \<Rightarrow> k < max_id) feed))"
    by (simp add: paginate_def min.commute)
qed

theorem example_page:
  "paginate (Some 2) (Some 1) [example_post, example_private_post] = [example_post]
   \<and> length (paginate (Some 2) (Some 1) [example_post, example_private_post]) \<le> 1
   \<and> (\<exists>k. p_id example_post = Some k \<and> k < 2)"
  using page_below_max_id_at_most_count [of 2 1 "[example_post, example_private_post]"]
  by (simp add: paginate_def example_post_def example_private_post_def)

text \<open>
  Claim C5. In a reachable database, the feed of a user's posts for a request without
  credentials holds exactly the posts of that user that are in the world circle; a post
  whose circles are all other circles is not in it.
\<close>

theorem unauthenticated_feed_is_public_posts:
  assumes "reachable db"
  shows "set (get_posts_unauthenticated w user db) =
           {p \<in> set (posts db). p_creator p = user
              \<and> (\<exists>k. p_id p = Some k \<and> (k, w) \<in> set (post_circles db))}
     \<and> (\<forall>p \<in> set (get_posts_unauthenticated w user db). is_public_post w p db)
     \<and> (\<forall>p \<in> set (posts db).
           (\<forall>pc \<in> set (post_circles db). Some (fst pc) = p_id p \<longrightarrow> snd pc \<noteq> w)
             \<longrightarrow> p \<notin> set (get_posts_unauthenticated w user db))"
proof -
  have "distinct (post_circles db)"
    using reachable_invariants [OF assms] by (simp add: consistent_def)
  note pub = is_public_post_iff [OF this]
  have 1: "set (get_posts_unauthenticated w user db) =
           {p \<in> set (posts db). p_creator p = user
              \<and> (\<exists>k. p_id p = Some k \<and> (k, w) \<in> set (post_circles db))}"
    by (auto simp: get_posts_unauthenticated_def user_posts_def pub)
  have 2: "\<forall>p \<in> set (get_posts_unauthenticated w user db). is_public_post w p db"
    by (simp add: get_posts_unauthenticated_def)
  have 3: "\<forall>p \<in> set (posts db).
           (\<forall>pc \<in> set (post_circles db). Some (fst pc) = p_id p \<longrightarrow> snd pc \<noteq> w)
             \<longrightarrow> p \<notin> set (get_posts_unauthenticated w user db)"
    unfolding 1 by force
  show ?thesis by (intro conjI 1 2 3)
qed

lemma example_db3_eq:
  "example_db3 = empty_db\<lparr>posts := [example_post, example_private_post], post_seq := 2,
     post_circles := [(1, 1), (2, 5)]\<rparr>"
  by (simp add: example_db3_def example_db1_eq example_post_def example_private_post_def
      empty_db_def create_post_def Post_objects_create_def Post_save_def post_model_save_def
      then_do_def circles_add_def Let_def)

lemma example_db3_reachable: "reachable example_db3"
  unfolding example_db3_def by (rule reach_create_post) (rule example_db1_reachable)

theorem example_public_feed:
  "get_posts_unauthenticated 1 7 example_db3 = [example_post]
   \<and> example_private_post \<in> set (posts example_db3)
   \<and> example_private_post \<notin> set (get_posts_unauthenticated 1 7 example_db3)"
  using unauthenticated_feed_is_public_posts [OF example_db3_reachable, of 1 7]
  by (simp add: get_posts_unauthenticated_def user_posts_def is_public_post_def
      example_db3_eq example_post_def example_private_post_def empty_db_def)

text \<open>
  Claim C6. A feed filtered by \<open>circle_id\<close> (by \<open>list_id\<close>) holds exactly the posts,
  among those the requester may see, whose creator is a member of one of the named
  circles (lists); no post of a user outside those groups is in it.
\<close>

theorem group_filters_keep_members_posts:
  "set (posts_of_circle_members connections circle_ids visible) =
     {p \<in> set visible. \<exists>c \<in> set circle_ids. (c, p_creator p) \<in> set connections}
   \<and> set (posts_of_list_members follows list_ids visible) =
     {p \<in> set visible. \<exists>l \<in> set list_ids. (l, p_creator p) \<in> set follows}"
  by (simp add: posts_of_circle_members_def posts_of_list_members_def)

theorem example_circle_filter:
  "posts_of_circle_members [(3, 7)] [3] [example_post, example_private_post]
     = [example_post, example_private_post]
   \<and> posts_of_circle_members [(3, 8)] [3] [example_post, example_private_post] = []
   \<and> set (posts_of_list_members [(3, 7)] [3] [example_post]) = {example_post}"
  using group_filters_keep_members_posts
          [of "[(3, 7)]" "[3]" "[example_post]" "[(3, 7)]" "[3]"]
  by (simp add: posts_of_circle_members_def posts_of_list_members_def
      example_post_def example_private_post_def)

end
